theory Spec2Isabelle
  imports Complex_Main "HOL-Library.AList"
begin

section \<open>Data model\<close>

text \<open>
  The fusion stage of \<^verbatim>\<open>Backend/AI_Comb_Models_Logicals.py\<close> works on Python floats,
  lists and dicts. A finite float is the real number it denotes. The production path only
  compares probabilities (\<^verbatim>\<open>>=\<close>, \<^verbatim>\<open>>\<close>, \<^verbatim>\<open>max\<close>, sorting), and the order of
  finite floats is the order of the reals they denote, so no rounding occurs there. The
  aggregator of \<^verbatim>\<open>Test_Scripts/Combined_Predict.py\<close> computes with floats; its
  arithmetic is modelled with every operation rounded to double precision.

  An item dict \<^verbatim>\<open>{"label": l, "prob": p}\<close> is the pair \<open>(l, p)\<close>. A Python dict keeps
  its keys in insertion order, and the tiering loop iterates over \<^verbatim>\<open>items()\<close>, so a dict
  is an association list: \<open>map_of\<close> reads a key, \<open>AList.update\<close> overwrites the value of
  a key in place or appends a new key at the end, exactly as \<^verbatim>\<open>d[k] = v\<close> does.
\<close>

type_synonym item = "string \<times> real"

type_synonym 'v dict = "(string \<times> 'v) list"

datatype py_error = ValueError | IndexError

text \<open>
  \<^verbatim>\<open>xs.sort(key=lambda x: x["prob"], reverse=True)\<close>: Python's sort is stable, also with
  \<^verbatim>\<open>reverse=True\<close> (items with equal keys keep their order). The stable insertion sort
  of the library on the negated key is the same list. \<^verbatim>\<open>Combined_Predict.py\<close> writes the
  negated key itself (\<^verbatim>\<open>key=lambda z: -z[1]\<close>).
\<close>

definition sort_prob_reverse :: "item list \<Rightarrow> item list" where
  "sort_prob_reverse xs = sort_key (\<lambda>x. - snd x) xs"

text \<open>
  \<^verbatim>\<open>max(xs, key=f)\<close>: raises \<^verbatim>\<open>ValueError\<close> on an empty sequence; otherwise it keeps
  the first item and replaces it only by an item whose key is strictly greater.
\<close>

fun max_key_loop :: "('a \<Rightarrow> real) \<Rightarrow> 'a list \<Rightarrow> 'a \<Rightarrow> 'a" where
  "max_key_loop key [] best = best"
| "max_key_loop key (x # xs) best =
     max_key_loop key xs (if key x > key best then x else best)"

definition py_max_key :: "('a \<Rightarrow> real) \<Rightarrow> 'a list \<Rightarrow> py_error + 'a" where
  "py_max_key key xs =
     (case xs of [] \<Rightarrow> Inl ValueError | x # rest \<Rightarrow> Inr (max_key_loop key rest x))"

text \<open>\<^verbatim>\<open>d.get(k, default)\<close> on a dict read as a partial map.\<close>

definition get_default :: "(string \<rightharpoonup> 'v) \<Rightarrow> string \<Rightarrow> 'v \<Rightarrow> 'v" where
  "get_default d k dflt = (case d k of None \<Rightarrow> dflt | Some v \<Rightarrow> v)"

section \<open>Lesion taxonomy\<close>

text \<open>
  \<^verbatim>\<open>LESION_TO_CONCERN: Dict[str, Optional[str]]\<close>, the default \<^verbatim>\<open>lesion_mapping\<close>.
  One raw label is mapped to \<^verbatim>\<open>None\<close> on purpose.
\<close>

definition LESION_TO_CONCERN :: "(string \<times> string option) list" where
  "LESION_TO_CONCERN =
    [(''Papule'', Some ''Acne''), (''Pustule'', Some ''Acne''), (''Nodule'', Some ''Acne''),
     (''Cyst'', Some ''Acne''),
     (''Comedo'', Some ''Blackheads''),
     (''Dome-shaped'', Some ''Bumps''), (''Acuminate'', Some ''Bumps''),
     (''Umbilicated'', Some ''Bumps''),
     (''Brown(Hyperpigmentation)'', Some ''Dark Spots''),
     (''Pigmented'', Some ''Dark Spots''),
     (''Poikiloderma'', Some ''Dark Spots''),
     (''Erythema'', Some ''Redness''), (''Salmon'', Some ''Redness''),
     (''Telangiectasia'', Some ''Broken Capillaries''),
     (''Purpura/Petechiae'', Some ''Bruising/Discoloration''),
     (''Purple'', Some ''Bruising/Discoloration''),
     (''Scale'', Some ''Dryness/Flaking''), (''Xerosis'', Some ''Dryness/Flaking''),
     (''Fissure'', Some ''Dryness/Flaking''),
     (''Plaque'', Some ''Texture/Roughness''), (''Patch'', Some ''Texture/Roughness''),
     (''Lichenification'', Some ''Texture/Roughness''),
     (''Sclerosis'', Some ''Texture/Roughness''),
     (''Erosion'', Some ''Wound/Barrier Damage''), (''Ulcer'', Some ''Wound/Barrier Damage''),
     (''Friable'', Some ''Wound/Barrier Damage''),
     (''Exudate'', Some ''Oozing/Crusting''), (''Crust'', Some ''Oozing/Crusting''),
     (''Scar'', Some ''Scarring''), (''Atrophy'', Some ''Fine Lines/Wrinkles''),
     (''Vesicle'', Some ''Blistering''), (''Bulla'', Some ''Blistering''),
     (''White(Hypopigmentation)'', Some ''Hypopigmentation''),
     (''Blue'', Some ''Discoloration''), (''Black'', Some ''Discoloration''),
     (''Gray'', Some ''Discoloration''), (''Translucent'', Some ''Discoloration''),
     (''Warty/Papillomatous'', Some ''Warts/Skin Growth''),
     (''Pedunculated'', Some ''Skin Tag''),
     (''Exophytic/Fungating'', Some ''Abnormal Growth''),
     (''Wheal'', Some ''Hives''),
     (''Induration'', Some ''Inflammation/Swelling''),
     (''Abscess'', Some ''Inflammation/Swelling''),
     (''Do not consider this image'', None),
     (''Burrow'', Some ''Abnormal Finding'')]"

section \<open>Combination logic of \<^verbatim>\<open>AI_Comb_Models_Logicals.py\<close>\<close>

text \<open>
  Names starting with an underscore in the source lose it here
  (\<^verbatim>\<open>_pick_skin_type\<close> is \<open>pick_skin_type\<close>, and so on).
\<close>

text \<open>
  \<^verbatim>\<open>_pick_skin_type(prob_map, skin_type_labels)\<close>: the label of \<^verbatim>\<open>skin_type_labels\<close> with
  the greatest \<^verbatim>\<open>prob_map.get(k, 0.0)\<close>, with that probability. Only \<^verbatim>\<open>get\<close> is used
  on \<^verbatim>\<open>prob_map\<close>, so it is a partial map here.
\<close>

definition pick_skin_type :: "(string \<rightharpoonup> real) \<Rightarrow> string list \<Rightarrow> py_error + item" where
  "pick_skin_type prob_map skin_type_labels =
     (case py_max_key (\<lambda>k. get_default prob_map k 0) skin_type_labels of
        Inl e \<Rightarrow> Inl e
      | Inr best_label \<Rightarrow> Inr (best_label, get_default prob_map best_label 0))"

text \<open>\<^verbatim>\<open>_skin_concerns_from_conditions\<close>: the loop appends to \<^verbatim>\<open>out\<close>, then sorts.\<close>

fun skin_concerns_loop :: "string list \<Rightarrow> real \<Rightarrow> item list \<Rightarrow> item list \<Rightarrow> item list" where
  "skin_concerns_loop skin_type_labels threshold [] out = out"
| "skin_concerns_loop skin_type_labels threshold ((lbl, p) # ds) out =
     (if lbl \<in> set skin_type_labels then skin_concerns_loop skin_type_labels threshold ds out
      else if p \<ge> threshold
        then skin_concerns_loop skin_type_labels threshold ds (out @ [(lbl, p)])
        else skin_concerns_loop skin_type_labels threshold ds out)"

definition skin_concerns_from_conditions :: "item list \<Rightarrow> string list \<Rightarrow> real \<Rightarrow> item list" where
  "skin_concerns_from_conditions all_results skin_type_labels threshold =
     sort_prob_reverse (skin_concerns_loop skin_type_labels threshold all_results [])"

text \<open>
  \<^verbatim>\<open>_agg_lesions_to_concerns_by_max\<close>: \<^verbatim>\<open>mapping.get(lesion_label)\<close> is \<^verbatim>\<open>None\<close> for a
  missing key and for a key mapped to \<^verbatim>\<open>None\<close>; \<^verbatim>\<open>if not concern\<close> also skips the empty
  string. The entry is written when the concern is new or the probability strictly greater.
\<close>

fun agg_loop :: "(string \<rightharpoonup> string option) \<Rightarrow> item list \<Rightarrow> real dict \<Rightarrow> real dict" where
  "agg_loop mapping [] agg = agg"
| "agg_loop mapping ((lesion_label, p) # ds) agg =
     (case (case mapping lesion_label of None \<Rightarrow> None | Some c \<Rightarrow> c) of
        None \<Rightarrow> agg_loop mapping ds agg
      | Some concern \<Rightarrow>
          if concern = [] then agg_loop mapping ds agg
          else (case map_of agg concern of
                  None \<Rightarrow> agg_loop mapping ds (AList.update concern p agg)
                | Some q \<Rightarrow>
                    if p > q then agg_loop mapping ds (AList.update concern p agg)
                    else agg_loop mapping ds agg))"

definition agg_lesions_to_concerns_by_max ::
    "item list \<Rightarrow> (string \<rightharpoonup> string option) \<Rightarrow> real dict" where
  "agg_lesions_to_concerns_by_max lesion_results mapping = agg_loop mapping lesion_results []"

text \<open>
  \<^verbatim>\<open>_split_other_concerns\<close>: one pass over \<^verbatim>\<open>agg_concern_probs.items()\<close> filling the two
  lists \<^verbatim>\<open>other\<close> and \<^verbatim>\<open>low\<close>, then both are sorted by probability, greatest first.
\<close>

fun split_loop :: "real \<Rightarrow> real \<Rightarrow> item list \<Rightarrow> item list \<times> item list \<Rightarrow> item list \<times> item list" where
  "split_loop high_thr low_thr [] (other, low) = (other, low)"
| "split_loop high_thr low_thr ((lbl, p) # rest) (other, low) =
     (if p \<ge> high_thr then split_loop high_thr low_thr rest (other @ [(lbl, p)], low)
      else if p \<ge> low_thr then split_loop high_thr low_thr rest (other, low @ [(lbl, p)])
      else split_loop high_thr low_thr rest (other, low))"

definition split_other_concerns :: "real dict \<Rightarrow> real \<Rightarrow> real \<Rightarrow> item list \<times> item list" where
  "split_other_concerns agg_concern_probs high_thr low_thr =
     (case split_loop high_thr low_thr agg_concern_probs ([], []) of
        (other, low) \<Rightarrow> (sort_prob_reverse other, sort_prob_reverse low))"

text \<open>
  \<^verbatim>\<open>run_combined_AI_from_cv2\<close>. The two calls of \<^verbatim>\<open>predict_from_bgr\<close> are the external
  inference step; their \<^verbatim>\<open>"all_results"\<close> lists are parameters here, in place of the
  image and the two runners. \<^verbatim>\<open>cond_map\<close> is a dict comprehension: a later item with the
  same label overwrites the earlier one. The result dict with its four keys is a record.
  The function checks nothing about its thresholds and passes them on as they are.
\<close>

record combined =
  skin_type :: item
  skin_concerns :: "item list"
  other_concerns :: "item list"
  low_concerns :: "item list"

fun dict_of_items :: "item list \<Rightarrow> real dict \<Rightarrow> real dict" where
  "dict_of_items [] m = m"
| "dict_of_items ((lbl, p) # ds) m = dict_of_items ds (AList.update lbl p m)"

definition run_combined_AI_from_cv2 ::
    "item list \<Rightarrow> item list \<Rightarrow> string list \<Rightarrow> real \<Rightarrow> real \<Rightarrow> real \<Rightarrow>
     (string \<rightharpoonup> string option) \<Rightarrow> py_error + combined" where
  "run_combined_AI_from_cv2 cond_all_results lesion_all_results skin_type_labels
       cond_threshold lesion_high_thr lesion_low_thr lesion_mapping =
     (case pick_skin_type (map_of (dict_of_items cond_all_results [])) skin_type_labels of
        Inl e \<Rightarrow> Inl e
      | Inr st \<Rightarrow>
          (case split_other_concerns
                  (agg_lesions_to_concerns_by_max lesion_all_results lesion_mapping)
                  lesion_high_thr lesion_low_thr of
             (other, low) \<Rightarrow>
               Inr \<lparr>skin_type = st,
                    skin_concerns =
                      skin_concerns_from_conditions cond_all_results skin_type_labels
                        cond_threshold,
                    other_concerns = other,
                    low_concerns = low\<rparr>))"

text \<open>
  \<^verbatim>\<open>merge_concerns_sections\<close>. A merged entry \<^verbatim>\<open>{"prob": p, "source": [...]}\<close> is a record.
  The first loop assigns \<^verbatim>\<open>merged[lbl]\<close> without looking whether the label is there. The
  second and the third loop have the same body and differ in the tag only, so they are one
  function of the tag. \<^verbatim>\<open>combined.get(key, [])\<close> reads a missing key as the empty list,
  which is the empty field here.
\<close>

record merged_entry =
  prob :: real
  source :: "string list"

fun merge_skin_concerns :: "item list \<Rightarrow> merged_entry dict \<Rightarrow> merged_entry dict" where
  "merge_skin_concerns [] merged = merged"
| "merge_skin_concerns ((lbl, p) # ds) merged =
     merge_skin_concerns ds
       (AList.update lbl \<lparr>prob = p, source = [''conditions'']\<rparr> merged)"

fun merge_section :: "string \<Rightarrow> item list \<Rightarrow> merged_entry dict \<Rightarrow> merged_entry dict" where
  "merge_section tag [] merged = merged"
| "merge_section tag ((lbl, p) # ds) merged =
     (case map_of merged lbl of
        Some e \<Rightarrow>
          merge_section tag ds
            (AList.update lbl
               \<lparr>prob = max (prob e) p,
                source = (if tag \<in> set (source e) then source e else source e @ [tag])\<rparr>
               merged)
      | None \<Rightarrow>
          merge_section tag ds (AList.update lbl \<lparr>prob = p, source = [tag]\<rparr> merged))"

definition merge_concerns_sections :: "combined \<Rightarrow> merged_entry dict" where
  "merge_concerns_sections c =
     merge_section ''lesions-low'' (low_concerns c)
       (merge_section ''lesions'' (other_concerns c)
          (merge_skin_concerns (skin_concerns c) []))"

section \<open>The aggregator and the picker of \<^verbatim>\<open>Test_Scripts/Combined_Predict.py\<close>\<close>

subsection \<open>Double-precision arithmetic\<close>

text \<open>
  \<^verbatim>\<open>combine_probs\<close> computes with Python floats, that is IEEE 754 binary64 numbers. A
  finite double is a real number, and every arithmetic operation returns the exact result
  rounded to the nearest double, ties to the even significand. \<open>rne\<close> rounds a real to the
  nearest integer, ties to even; \<open>expo\<close> is the binary exponent of a non-zero real;
  \<open>round_double\<close> rounds to 53 significant bits, with the fixed spacing \<open>2 powi - 1074\<close>
  below the least normal exponent \<open>- 1022\<close>. Overflow is not modelled: the values below are
  probabilities and their sums.
\<close>

definition rne :: "real \<Rightarrow> int" where
  "rne q =
     (let f = \<lfloor>q\<rfloor>; d = q - of_int f
      in if d < 1 / 2 then f else if d > 1 / 2 then f + 1 else if even f then f else f + 1)"

definition expo :: "real \<Rightarrow> int" where
  "expo x = \<lfloor>log 2 \<bar>x\<bar>\<rfloor>"

definition round_double :: "real \<Rightarrow> real" where
  "round_double x =
     (if x = 0 then 0
      else (let k = max (expo x) (- 1022) - 52
            in of_int (rne (x / 2 powi k)) * 2 powi k))"

definition fadd :: "real \<Rightarrow> real \<Rightarrow> real" where
  "fadd a b = round_double (a + b)"

definition fsub :: "real \<Rightarrow> real \<Rightarrow> real" where
  "fsub a b = round_double (a - b)"

definition fmul :: "real \<Rightarrow> real \<Rightarrow> real" where
  "fmul a b = round_double (a * b)"

definition fdiv :: "real \<Rightarrow> real \<Rightarrow> real" where
  "fdiv a b = round_double (a / b)"

subsection \<open>\<^verbatim>\<open>combine_probs\<close>\<close>

text \<open>
  \<^verbatim>\<open>combine_probs(values)\<close> reads the module constant \<^verbatim>\<open>COMBINE_METHOD\<close>, a parameter
  here. \<^verbatim>\<open>max(values)\<close> is the built-in without a key and only compares. \<^verbatim>\<open>sum\<close> adds
  from the left, starting at 0, each addition rounded (CPython from 3.12 on also carries a
  correction term, which is zero whenever the additions are exact); the quotient by the
  length is rounded once. Every method other than \<^verbatim>\<open>"max"\<close> and \<^verbatim>\<open>"avg"\<close> is the
  noisy-or loop \<^verbatim>\<open>prod *= (1.0 - float(p))\<close> followed by \<^verbatim>\<open>1.0 - prod\<close>.
\<close>

definition py_sum :: "real list \<Rightarrow> real" where
  "py_sum values = fold (\<lambda>v s. fadd s v) values 0"

definition combine_probs :: "string \<Rightarrow> real list \<Rightarrow> real" where
  "combine_probs COMBINE_METHOD values =
     (case values of
        [] \<Rightarrow> 0
      | v # rest \<Rightarrow>
          if COMBINE_METHOD = ''max'' then max_key_loop (\<lambda>x. x) rest v
          else if COMBINE_METHOD = ''avg'' then fdiv (py_sum values) (real (length values))
          else fsub 1 (fold (\<lambda>p prod. fmul prod (fsub 1 p)) values 1))"

subsection \<open>\<^verbatim>\<open>pick_skin_type\<close>\<close>

text \<open>
  \<^verbatim>\<open>canonical_skin_name(name)\<close> is \<^verbatim>\<open>SKIN_ALIASES.get((name or "").strip().lower())\<close>.
  \<^verbatim>\<open>str.strip\<close> and \<^verbatim>\<open>str.lower\<close> are Python's own, defined on all of Unicode; they
  are the parameters \<open>strip\<close> and \<open>lower\<close> here, so nothing below depends on what they do
  to a string.
\<close>

definition SKIN_ALIASES :: "(string \<times> string) list" where
  "SKIN_ALIASES =
     [(''oily skin'', ''Oily Skin''), (''oily'', ''Oily Skin''),
      (''normal skin'', ''Normal Skin''), (''normal'', ''Normal Skin''),
      (''dry skin'', ''Dry Skin''), (''dry'', ''Dry Skin'')]"

definition SKIN_SET :: "string list" where
  "SKIN_SET = [''Oily Skin'', ''Normal Skin'', ''Dry Skin'']"

definition canonical_skin_name ::
    "(string \<Rightarrow> string) \<Rightarrow> (string \<Rightarrow> string) \<Rightarrow> string \<Rightarrow> string option" where
  "canonical_skin_name strip lower name = map_of SKIN_ALIASES (lower (strip name))"

text \<open>
  \<^verbatim>\<open>pick_skin_type(classes, probs)\<close> of \<^verbatim>\<open>Combined_Predict.py\<close>, named
  \<open>Combined_Predict_pick_skin_type\<close> to keep it apart from the production picker. The loop
  runs over \<^verbatim>\<open>enumerate(classes)\<close>; \<^verbatim>\<open>probs[i]\<close> raises \<^verbatim>\<open>IndexError\<close> when the array
  is shorter than the class list. It returns \<^verbatim>\<open>None\<close> when no class is a skin type.
\<close>

fun skin_items_loop ::
    "(string \<Rightarrow> string) \<Rightarrow> (string \<Rightarrow> string) \<Rightarrow> string list \<Rightarrow> real list \<Rightarrow> nat \<Rightarrow>
     item list \<Rightarrow> py_error + item list" where
  "skin_items_loop strip lower [] probs i skin_items = Inr skin_items"
| "skin_items_loop strip lower (name # rest) probs i skin_items =
     (case canonical_skin_name strip lower name of
        None \<Rightarrow> skin_items_loop strip lower rest probs (i + 1) skin_items
      | Some canon \<Rightarrow>
          if canon \<in> set SKIN_SET then
            (if i < length probs
             then skin_items_loop strip lower rest probs (i + 1)
                    (skin_items @ [(canon, probs ! i)])
             else Inl IndexError)
          else skin_items_loop strip lower rest probs (i + 1) skin_items)"

definition Combined_Predict_pick_skin_type ::
    "(string \<Rightarrow> string) \<Rightarrow> (string \<Rightarrow> string) \<Rightarrow> string list \<Rightarrow> real list \<Rightarrow>
     py_error + item option" where
  "Combined_Predict_pick_skin_type strip lower classes probs =
     (case skin_items_loop strip lower classes probs 0 [] of
        Inl e \<Rightarrow> Inl e
      | Inr skin_items \<Rightarrow>
          if skin_items = [] then Inr None
          else (case sort_prob_reverse skin_items of
                  [] \<Rightarrow> Inl IndexError
                | x # _ \<Rightarrow> Inr (Some x)))"

section \<open>The tier classifier in the words of the specification\<close>

text \<open>
  The source has no classifier function: the tiers are the branches of the loop of
  \<^verbatim>\<open>_split_other_concerns\<close>. This definition follows the specification (section 4.4,
  inclusive-low convention) and is compared with the source's loop below.
\<close>

datatype tier = High | Low | Dropped

definition classify_spec :: "real \<Rightarrow> real \<Rightarrow> real \<Rightarrow> tier" where
  "classify_spec probability high_threshold low_threshold =
     (if probability \<ge> high_threshold then High
      else if low_threshold \<le> probability \<and> probability < high_threshold then Low
      else Dropped)"

section \<open>The section merge in the words of the specification\<close>

text \<open>
  These two definitions follow the specification (section 4.6), not the source: sections
  are processed in the given order, and every item either creates the entry of its label
  with the section's tag, or raises the stored probability to the maximum and appends the
  tag when it is not there yet. They are compared with \<open>merge_concerns_sections\<close> below.
\<close>

definition merge_item_spec :: "string \<Rightarrow> item \<Rightarrow> merged_entry dict \<Rightarrow> merged_entry dict" where
  "merge_item_spec tag it merged =
     (case map_of merged (fst it) of
        None \<Rightarrow> AList.update (fst it) \<lparr>prob = snd it, source = [tag]\<rparr> merged
      | Some existing \<Rightarrow>
          AList.update (fst it)
            \<lparr>prob = max (prob existing) (snd it),
             source = (if tag \<in> set (source existing) then source existing
                       else source existing @ [tag])\<rparr>
            merged)"

fun merge_spec :: "(string \<times> item list) list \<Rightarrow> merged_entry dict \<Rightarrow> merged_entry dict" where
  "merge_spec [] merged = merged"
| "merge_spec ((tag, items) # sections) merged =
     merge_spec sections (fold (merge_item_spec tag) items merged)"

section \<open>Helper lemmas\<close>

subsection \<open>Tiering and the picker\<close>

lemma split_loop_filter:
  "split_loop h l xs (other, low) =
     (other @ filter (\<lambda>x. snd x \<ge> h) xs, low @ filter (\<lambda>x. \<not> snd x \<ge> h \<and> snd x \<ge> l) xs)"
  by (induction xs arbitrary: other low) auto

lemma split_other_concerns_filter:
  "split_other_concerns agg h l =
     (sort_prob_reverse (filter (\<lambda>x. snd x \<ge> h) agg),
      sort_prob_reverse (filter (\<lambda>x. \<not> snd x \<ge> h \<and> snd x \<ge> l) agg))"
  by (simp add: split_other_concerns_def split_loop_filter)

lemma sorted_wrt_sort_prob_reverse:
  "sorted_wrt (\<lambda>a b. snd a \<ge> snd b) (sort_prob_reverse xs)"
proof -
  have "sorted (map (\<lambda>x. - snd x) (sort_key (\<lambda>x. - snd x) xs))"
    by (rule sorted_sort_key)
  then show ?thesis
    by (simp add: sort_prob_reverse_def sorted_map)
qed

lemma set_sort_prob_reverse: "set (sort_prob_reverse xs) = set xs"
  by (simp add: sort_prob_reverse_def)

lemma distinct_fst_sort_prob_reverse:
  "distinct (map fst (sort_prob_reverse xs)) = distinct (map fst xs)"
  by (simp add: sort_prob_reverse_def distinct_map)

lemma classify_spec_High: "(classify_spec p h l = High) = (p \<ge> h)"
  by (simp add: classify_spec_def)

lemma classify_spec_Low: "(classify_spec p h l = Low) = (\<not> p \<ge> h \<and> p \<ge> l)"
  by (auto simp add: classify_spec_def)

lemma max_key_loop_split:
  "\<exists>pre post. b # xs = pre @ max_key_loop key xs b # post
     \<and> (\<forall>x \<in> set pre. key x < key (max_key_loop key xs b))
     \<and> (\<forall>x \<in> set post. key x \<le> key (max_key_loop key xs b))"
proof (induction xs arbitrary: b)
  case Nil
  have "[b] = [] @ max_key_loop key [] b # []" by simp
  then show ?case by fastforce
next
  case (Cons x xs)
  define b' where "b' = (if key x > key b then x else b)"
  define r where "r = max_key_loop key xs b'"
  have r_eq: "max_key_loop key (x # xs) b = r"
    by (simp add: r_def b'_def)
  from Cons.IH [of b'] obtain pre post where
    split: "b' # xs = pre @ r # post" and
    lt: "\<forall>y \<in> set pre. key y < key r" and
    le: "\<forall>y \<in> set post. key y \<le> key r"
    unfolding r_def by blast
  have b'_le: "key b' \<le> key r"
  proof (cases pre)
    case Nil
    then show ?thesis using split by simp
  next
    case (Cons p ps)
    then have "b' \<in> set pre" using split by simp
    then show ?thesis using lt by fastforce
  qed
  show ?case
  proof (cases "key x > key b")
    case True
    then have "b' = x" by (simp add: b'_def)
    then have "b # x # xs = (b # pre) @ r # post" and "key b < key r"
      using split b'_le True by auto
    then have "b # x # xs = (b # pre) @ r # post
        \<and> (\<forall>y \<in> set (b # pre). key y < key r) \<and> (\<forall>y \<in> set post. key y \<le> key r)"
      using lt le by simp
    then show ?thesis unfolding r_eq by blast
  next
    case False
    then have b': "b' = b" by (simp add: b'_def)
    show ?thesis
    proof (cases pre)
      case Nil
      then have "r = b" and "post = xs" using split b' by simp_all
      then have "b # x # xs = [] @ r # (x # xs)
          \<and> (\<forall>y \<in> set []. key y < key r) \<and> (\<forall>y \<in> set (x # xs). key y \<le> key r)"
        using le False by auto
      then show ?thesis unfolding r_eq by blast
    next
      case (Cons p ps)
      then have "p = b" and xs: "xs = ps @ r # post" using split b' by simp_all
      then have "key b < key r" using lt Cons by simp
      then have "b # x # xs = (b # x # ps) @ r # post
          \<and> (\<forall>y \<in> set (b # x # ps). key y < key r) \<and> (\<forall>y \<in> set post. key y \<le> key r)"
        using xs lt le False Cons by auto
      then show ?thesis unfolding r_eq by blast
    qed
  qed
qed

lemma py_max_key_first:
  assumes "xs \<noteq> []"
  shows "\<exists>r. py_max_key key xs = Inr r \<and> r \<in> set xs
     \<and> (\<forall>x \<in> set xs. key x \<le> key r)
     \<and> (\<forall>x \<in> set (takeWhile (\<lambda>x. x \<noteq> r) xs). key x < key r)"
proof -
  from assms obtain b rest where xs: "xs = b # rest" by (cases xs) auto
  define r where "r = max_key_loop key rest b"
  from max_key_loop_split [of b rest key] obtain pre post where
    split: "xs = pre @ r # post" and
    lt: "\<forall>y \<in> set pre. key y < key r" and
    le: "\<forall>y \<in> set post. key y \<le> key r"
    unfolding r_def xs by blast
  have "r \<notin> set pre" using lt by auto
  then have tw: "takeWhile (\<lambda>x. x \<noteq> r) xs = pre"
    unfolding split by (simp add: takeWhile_append)
  have "py_max_key key xs = Inr r"
    by (simp add: py_max_key_def xs r_def)
  moreover have "r \<in> set xs" using split by simp
  moreover have "\<forall>x \<in> set xs. key x \<le> key r"
    using lt le unfolding split by fastforce
  ultimately show ?thesis using tw lt by blast
qed

lemma max_key_loop_append:
  "max_key_loop key (xs @ ys) b = max_key_loop key ys (max_key_loop key xs b)"
  by (induction xs arbitrary: b) simp_all

subsection \<open>The section merge\<close>

text \<open>
  The first loop of \<^verbatim>\<open>merge_concerns_sections\<close> and the loop of the other two sections
  agree when the labels of the section are distinct and new to the dict: only then is the
  unconditional assignment the same as the guarded one.
\<close>

lemma merge_skin_concerns_distinct:
  "distinct (map fst xs) \<Longrightarrow> \<forall>l \<in> fst ` set xs. map_of merged l = None \<Longrightarrow>
     merge_skin_concerns xs merged = merge_section ''conditions'' xs merged"
proof (induction xs arbitrary: merged)
  case Nil
  then show ?case by simp
next
  case (Cons x xs)
  obtain lbl p where x: "x = (lbl, p)" by (cases x)
  let ?m = "AList.update lbl \<lparr>prob = p, source = [''conditions'']\<rparr> merged"
  have unseen: "map_of merged lbl = None"
    using Cons.prems(2) x by simp
  have rest: "\<forall>l \<in> fst ` set xs. map_of ?m l = None"
    using Cons.prems x by (auto simp add: update_conv')
  have dist: "distinct (map fst xs)" using Cons.prems(1) by simp
  have "merge_skin_concerns xs ?m = merge_section ''conditions'' xs ?m"
    by (rule Cons.IH [OF dist rest])
  then show ?case using unseen x by simp
qed

lemma merge_section_fold:
  "merge_section tag xs merged = fold (merge_item_spec tag) xs merged"
  by (induction xs arbitrary: merged) (auto simp add: merge_item_spec_def split: option.splits)

lemma Max_probs_Cons:
  "xs \<noteq> [] \<Longrightarrow> Max (set ((p :: real) # xs)) = max p (Max (set xs))"
  by simp

lemma map_of_merge_section:
  "map_of (merge_section tag xs merged) l =
     (if l \<in> fst ` set xs then
        Some (case map_of merged l of
                None \<Rightarrow>
                  \<lparr>prob = Max (set (map snd (filter (\<lambda>x. fst x = l) xs))), source = [tag]\<rparr>
              | Some e \<Rightarrow>
                  \<lparr>prob = max (prob e) (Max (set (map snd (filter (\<lambda>x. fst x = l) xs)))),
                   source = (if tag \<in> set (source e) then source e else source e @ [tag])\<rparr>)
      else map_of merged l)"
proof (induction xs arbitrary: merged)
  case Nil
  then show ?case by simp
next
  case (Cons x xs)
  obtain lbl p where x: "x = (lbl, p)" by (cases x)
  define e' where "e' = (case map_of merged lbl of
        None \<Rightarrow> \<lparr>prob = p, source = [tag]\<rparr>
      | Some e \<Rightarrow> \<lparr>prob = max (prob e) p,
           source = (if tag \<in> set (source e) then source e else source e @ [tag])\<rparr>)"
  define m' where "m' = AList.update lbl e' merged"
  have step: "merge_section tag (x # xs) merged = merge_section tag xs m'"
    by (simp add: x m'_def e'_def split: option.splits)
  have IH: "map_of (merge_section tag xs m') l =
     (if l \<in> fst ` set xs then
        Some (case map_of m' l of
                None \<Rightarrow>
                  \<lparr>prob = Max (set (map snd (filter (\<lambda>x. fst x = l) xs))), source = [tag]\<rparr>
              | Some e \<Rightarrow>
                  \<lparr>prob = max (prob e) (Max (set (map snd (filter (\<lambda>x. fst x = l) xs)))),
                   source = (if tag \<in> set (source e) then source e else source e @ [tag])\<rparr>)
      else map_of m' l)"
    by (rule Cons.IH)
  show ?case
  proof (cases "l = lbl")
    case False
    then have same: "map_of m' l = map_of merged l"
      by (simp add: m'_def update_conv')
    have flt: "filter (\<lambda>y. fst y = l) (x # xs) = filter (\<lambda>y. fst y = l) xs"
      using False by (simp add: x)
    have mem: "(l \<in> fst ` set (x # xs)) = (l \<in> fst ` set xs)"
      using False by (simp add: x)
    show ?thesis
      unfolding step IH same flt mem by simp
  next
    case True
    have m'l: "map_of m' l = Some e'"
      using True by (simp add: m'_def update_conv')
    have tag_in: "tag \<in> set (source e')"
      by (simp add: e'_def split: option.splits)
    show ?thesis
    proof (cases "l \<in> fst ` set xs")
      case in_rest: True
      then have ne: "map snd (filter (\<lambda>x. fst x = l) xs) \<noteq> []"
        by (auto simp add: filter_empty_conv)
      have mx: "Max (set (map snd (filter (\<lambda>x. fst x = l) (x # xs))))
          = max p (Max (set (map snd (filter (\<lambda>x. fst x = l) xs))))"
        using True x Max_probs_Cons [OF ne, of p] by simp
      have inx: "l \<in> fst ` set (x # xs)" using in_rest by simp
      show ?thesis
        unfolding step IH mx
        using in_rest inx m'l tag_in True
        by (simp add: e'_def max.assoc split: option.splits)
    next
      case not_in_rest: False
      then have nil: "filter (\<lambda>x. fst x = l) xs = []"
        by (auto simp add: filter_empty_conv)
      have inx: "l \<in> fst ` set (x # xs)" using True x by simp
      show ?thesis
        unfolding step IH
        using not_in_rest inx m'l True x nil
        by (simp add: e'_def split: option.splits)
    qed
  qed
qed

lemma Max_set_append:
  "xs \<noteq> [] \<Longrightarrow> ys \<noteq> [] \<Longrightarrow>
     Max (set (xs @ ys)) = max (Max (set xs)) (Max (set (ys :: real list)))"
  by (simp add: Max_Un)

lemma probs_nonempty:
  "(map snd (filter (\<lambda>x. fst x = l) xs) \<noteq> []) = (l \<in> fst ` set xs)"
  by (auto simp add: filter_empty_conv)

subsection \<open>Rounding to double precision\<close>

lemma rne_of_int: "rne (of_int n) = n"
  by (simp add: rne_def)

lemma rne_floor: "\<lfloor>q\<rfloor> \<le> rne q \<and> rne q \<le> \<lfloor>q\<rfloor> + 1"
  by (simp add: rne_def Let_def)

lemma rne_mono: "a \<le> b \<Longrightarrow> rne a \<le> rne b"
proof (cases "\<lfloor>a\<rfloor> < \<lfloor>b\<rfloor>")
  case True
  then show ?thesis using rne_floor [of a] rne_floor [of b] by linarith
next
  case False
  assume "a \<le> b"
  then have "\<lfloor>a\<rfloor> \<le> \<lfloor>b\<rfloor>" by (rule floor_mono)
  with False have eq: "\<lfloor>a\<rfloor> = \<lfloor>b\<rfloor>" by simp
  show ?thesis
    using \<open>a \<le> b\<close> by (auto simp add: rne_def Let_def eq)
qed

lemma rne_le: "q \<le> of_int m \<Longrightarrow> rne q \<le> m"
  using rne_mono [of q "of_int m"] by (simp add: rne_of_int)

lemma rne_ge: "of_int m \<le> q \<Longrightarrow> m \<le> rne q"
  using rne_mono [of "of_int m" q] by (simp add: rne_of_int)

lemma powi_powr: "2 powr (of_int k) = (2 :: real) powi k"
  by (simp add: powr_real_of_int')

lemma expo_bounds:
  assumes "0 < x"
  shows "2 powi expo x \<le> x" and "x < 2 powi (expo x + 1)"
proof -
  have "\<lfloor>log 2 x\<rfloor> = expo x" using assms by (simp add: expo_def)
  then have "2 powr (of_int (expo x)) \<le> x \<and> x < 2 powr (of_int (expo x + 1))"
    using floor_log_eq_powr_iff [of x 2 "expo x"] assms by simp
  then show "2 powi expo x \<le> x" and "x < 2 powi (expo x + 1)"
    by (simp_all only: powi_powr)
qed

lemma expo_eqI:
  assumes "0 < x" and "2 powi e \<le> x" and "x < 2 powi (e + 1)"
  shows "expo x = e"
proof -
  have "2 powr (of_int e) \<le> x \<and> x < 2 powr (of_int (e + 1))"
    using assms by (simp only: powi_powr)
  then show ?thesis
    using floor_log_eq_powr_iff [of x 2 e] assms(1) by (simp add: expo_def)
qed

lemma expo_mono: "0 < x \<Longrightarrow> x \<le> y \<Longrightarrow> expo x \<le> expo y"
  by (simp add: expo_def floor_mono)

lemma powi_pos: "0 < (2 :: real) powi k"
  by (simp add: zero_less_power_int)

lemma powi_le: "a \<le> b \<Longrightarrow> (2 :: real) powi a \<le> 2 powi b"
  by (rule power_int_increasing) simp_all

lemma powi_less_cancel: "(2 :: real) powi a < 2 powi b \<Longrightarrow> a < b"
  using powi_le [of b a] by (cases "a < b") simp_all

lemma powi_add: "(2 :: real) powi (a + b) = 2 powi a * 2 powi b"
  by (simp add: power_int_add)

lemma powi_diff: "(2 :: real) powi (a - b) = 2 powi a / 2 powi b"
  by (simp add: power_int_diff)

lemma of_int_pow2: "j \<ge> 0 \<Longrightarrow> (2 :: real) powi j = of_int (2 ^ nat j)"
  by (simp add: power_int_def)

lemma round_double_nonzero:
  "x \<noteq> 0 \<Longrightarrow>
     round_double x =
       of_int (rne (x / 2 powi (max (expo x) (- 1022) - 52)))
         * 2 powi (max (expo x) (- 1022) - 52)"
  by (simp add: round_double_def Let_def)

text \<open>
  A value \<open>n * 2 powi j\<close> with a significand \<open>n\<close> below \<open>2 ^ 53\<close> and an exponent \<open>j\<close> not
  below \<open>- 1074\<close> is a double: rounding leaves it as it is.
\<close>

lemma round_double_fix:
  assumes x: "x = of_int n * 2 powi j" and n: "0 \<le> n" "n < 2 ^ 53" and j: "- 1074 \<le> j"
  shows "round_double x = x"
proof (cases "x = 0")
  case True
  then show ?thesis by (simp add: round_double_def)
next
  case False
  then have npos: "0 < n" using x n(1) by (cases "n = 0") simp_all
  have xpos: "0 < x" using npos x by (simp add: powi_pos)
  define e where "e = expo x"
  define k where "k = max e (- 1022) - 52"
  have "2 powi e \<le> x" unfolding e_def using xpos by (rule expo_bounds)
  also have "x < 2 ^ 53 * 2 powi j"
    unfolding x using n(2) by (simp add: powi_pos)
  also have "\<dots> = 2 powi (53 + j)"
    by (simp add: powi_add)
  finally have "e < 53 + j"
    by (rule powi_less_cancel)
  then have kj: "k \<le> j" using j by (simp add: k_def)
  have "x / 2 powi k = of_int n * 2 powi (j - k)"
    by (simp add: x powi_diff)
  also have "\<dots> = of_int (n * 2 ^ nat (j - k))"
    using kj by (simp add: of_int_pow2)
  finally have q: "x / 2 powi k = of_int (n * 2 ^ nat (j - k))" .
  have "round_double x = of_int (rne (x / 2 powi k)) * 2 powi k"
    using False by (simp add: round_double_nonzero k_def e_def)
  also have "\<dots> = x / 2 powi k * 2 powi k"
    by (simp only: q rne_of_int)
  also have "\<dots> = x"
    using powi_pos [of k] by simp
  finally show ?thesis .
qed

lemma round_double_0: "round_double 0 = 0"
  by (simp add: round_double_def)

lemma round_double_1: "round_double 1 = 1"
  using round_double_fix [of 1 1 0] by simp

lemma round_double_half: "round_double (1 / 2) = 1 / 2"
  using round_double_fix [of "1 / 2" 1 "- 1"] by simp

lemma round_double_parts:
  assumes "0 < x"
  obtains n where
    "round_double x = of_int n * 2 powi (max (expo x) (- 1022) - 52)"
    "0 \<le> n" "n \<le> 2 ^ 53" "- 1022 \<le> expo x \<Longrightarrow> 2 ^ 52 \<le> n"
proof -
  define K where "K = max (expo x) (- 1022)"
  define k where "k = K - 52"
  define q where "q = x / 2 powi k"
  have rd: "round_double x = of_int (rne q) * 2 powi (max (expo x) (- 1022) - 52)"
    using assms by (simp add: round_double_nonzero q_def k_def K_def)
  have "0 \<le> q" using assms powi_pos [of k] by (simp add: q_def)
  then have lo: "0 \<le> rne q" using rne_ge [of 0 q] by simp
  have "x < 2 powi (expo x + 1)" using assms by (rule expo_bounds)
  also have "\<dots> \<le> 2 powi (K + 1)" by (rule powi_le) (simp add: K_def)
  finally have "q < 2 powi (K + 1) / 2 powi k"
    using powi_pos [of k] by (simp add: q_def divide_strict_right_mono)
  also have "\<dots> = 2 powi 53" by (simp add: powi_diff [symmetric] k_def)
  finally have "q \<le> of_int (2 ^ 53)" by simp
  then have hi: "rne q \<le> 2 ^ 53" by (rule rne_le)
  have normal: "2 ^ 52 \<le> rne q" if "- 1022 \<le> expo x"
  proof -
    have K: "K = expo x" using that by (simp add: K_def)
    have "2 powi 52 = 2 powi (expo x) / (2 :: real) powi k"
      by (simp add: powi_diff [symmetric] k_def K)
    also have "\<dots> \<le> q"
      unfolding q_def using expo_bounds(1) [OF assms] powi_pos [of k]
      by (simp add: divide_right_mono)
    finally have "of_int (2 ^ 52) \<le> q" by simp
    then show ?thesis by (rule rne_ge)
  qed
  show ?thesis using that [of "rne q"] rd lo hi normal by blast
qed

lemma round_double_nonneg: "0 \<le> x \<Longrightarrow> 0 \<le> round_double x"
proof (cases "x = 0")
  case True
  then show ?thesis by (simp add: round_double_0)
next
  case False
  assume "0 \<le> x"
  with False have "0 < x" by simp
  then obtain n where "round_double x = of_int n * 2 powi (max (expo x) (- 1022) - 52)"
    and "0 \<le> n" by (rule round_double_parts)
  then show ?thesis using powi_pos [of "max (expo x) (- 1022) - 52"] by simp
qed

lemma round_double_upper:
  assumes "0 < x"
  shows "round_double x \<le> 2 powi (max (expo x) (- 1022) + 1)"
proof -
  define k where "k = max (expo x) (- 1022) - 52"
  from assms obtain n where rd: "round_double x = of_int n * 2 powi k"
    and "0 \<le> n" and "n \<le> 2 ^ 53"
    unfolding k_def by (rule round_double_parts)
  then have "real_of_int n \<le> 2 ^ 53"
    by (metis of_int_le_iff of_int_numeral of_int_power)
  then have "round_double x \<le> 2 ^ 53 * 2 powi k"
    unfolding rd using powi_pos [of k] by (simp add: mult_right_mono)
  also have "\<dots> = 2 powi (53 + k)" by (simp add: powi_add)
  also have "53 + k = max (expo x) (- 1022) + 1" by (simp add: k_def)
  finally show ?thesis .
qed

lemma round_double_lower:
  assumes "0 < x" and "- 1022 \<le> expo x"
  shows "2 powi (expo x) \<le> round_double x"
proof -
  define k where "k = expo x - 52"
  have k: "max (expo x) (- 1022) - 52 = k" using assms(2) by (simp add: k_def)
  from assms(1) obtain n where rd: "round_double x = of_int n * 2 powi k"
    and "0 \<le> n" "n \<le> 2 ^ 53" and big: "- 1022 \<le> expo x \<Longrightarrow> 2 ^ 52 \<le> n"
    unfolding k [symmetric] by (rule round_double_parts) blast
  have "2 ^ 52 \<le> n" using assms(2) by (rule big)
  then have n: "(2 :: real) ^ 52 \<le> real_of_int n"
    by (metis of_int_le_iff of_int_numeral of_int_power)
  have "(2 :: real) powi (expo x) = 2 powi (52 + k)"
    by (simp add: k_def)
  also have "\<dots> = 2 powi 52 * 2 powi k"
    by (rule powi_add)
  also have "\<dots> = 2 ^ 52 * 2 powi k"
    by simp
  also have "\<dots> \<le> of_int n * 2 powi k"
    using n powi_pos [of k] by (simp add: mult_right_mono)
  finally show ?thesis by (simp add: rd)
qed

lemma round_double_idem:
  assumes "0 \<le> x"
  shows "round_double (round_double x) = round_double x"
proof (cases "x = 0")
  case True
  then show ?thesis by (simp add: round_double_0)
next
  case False
  with assms have "0 < x" by simp
  define k where "k = max (expo x) (- 1022) - 52"
  from \<open>0 < x\<close> obtain n where rd: "round_double x = of_int n * 2 powi k"
    and n: "0 \<le> n" "n \<le> 2 ^ 53"
    unfolding k_def by (rule round_double_parts)
  have k: "- 1074 \<le> k" by (simp add: k_def)
  show ?thesis
  proof (cases "n < 2 ^ 53")
    case True
    then show ?thesis using round_double_fix [OF rd n(1) _ k] by simp
  next
    case False
    with n(2) have "n = 2 ^ 53" by simp
    then have "round_double x = of_int (2 ^ 52) * 2 powi (k + 1)"
      by (simp add: rd powi_add)
    then show ?thesis
      using round_double_fix [of "round_double x" "2 ^ 52" "k + 1"] k by simp
  qed
qed

lemma round_double_mono:
  assumes "0 \<le> x" and "x \<le> y"
  shows "round_double x \<le> round_double y"
proof (cases "x = 0")
  case True
  then show ?thesis using assms round_double_nonneg [of y] by (simp add: round_double_0)
next
  case False
  with assms have x: "0 < x" and y: "0 < y" by simp_all
  have ee: "expo x \<le> expo y" using x assms(2) by (rule expo_mono)
  define Kx where "Kx = max (expo x) (- 1022)"
  define Ky where "Ky = max (expo y) (- 1022)"
  have KK: "Kx \<le> Ky" using ee by (simp add: Kx_def Ky_def)
  show ?thesis
  proof (cases "Kx = Ky")
    case True
    define k where "k = Kx - 52"
    have "x / 2 powi k \<le> y / 2 powi k"
      using assms(2) powi_pos [of k] by (simp add: divide_right_mono)
    then have "rne (x / 2 powi k) \<le> rne (y / 2 powi k)" by (rule rne_mono)
    then have "real_of_int (rne (x / 2 powi k)) * 2 powi k
        \<le> real_of_int (rne (y / 2 powi k)) * 2 powi k"
      using powi_pos [of k] by (simp add: mult_right_mono)
    then show ?thesis
      using x y True by (simp add: round_double_nonzero k_def Kx_def Ky_def)
  next
    case False
    with KK have lt: "Kx < Ky" by simp
    then have normal: "- 1022 \<le> expo y" and Ky: "Ky = expo y"
      unfolding Kx_def Ky_def by linarith+
    have "round_double x \<le> 2 powi (Kx + 1)"
      unfolding Kx_def using x by (rule round_double_upper)
    also have "\<dots> \<le> 2 powi (expo y)"
      using lt Ky by (intro powi_le) simp
    also have "\<dots> \<le> round_double y"
      using y normal by (rule round_double_lower)
    finally show ?thesis .
  qed
qed

text \<open>
  Rounding a positive real whose binary exponent is known; with it the model computes the
  doubles of concrete inputs, such as the double written \<^verbatim>\<open>0.1\<close>.
\<close>

lemma round_double_eval:
  assumes "0 < x" and "2 powi e \<le> x" and "x < 2 powi (e + 1)" and "- 1022 \<le> e"
  shows "round_double x = of_int (rne (x / 2 powi (e - 52))) * 2 powi (e - 52)"
proof -
  have "expo x = e" using assms(1,2,3) by (rule expo_eqI)
  then show ?thesis using assms(1,4) by (simp add: round_double_nonzero)
qed

lemma round_double_tenth: "round_double (1 / 10) = 3602879701896397 / 36028797018963968"
  by (subst round_double_eval [where e = "- 4"]) (simp_all add: rne_def Let_def)

subsection \<open>The aggregator\<close>

lemma combine_probs_max_snoc:
  "combine_probs ''max'' (vs @ [p]) =
     (if vs = [] then p else max (combine_probs ''max'' vs) p)"
  by (cases vs) (auto simp add: combine_probs_def max_key_loop_append)

lemma noisy_step:
  assumes "0 \<le> p" "p \<le> 1" "0 \<le> acc" "acc \<le> 1" "round_double acc = acc"
  shows "0 \<le> fmul acc (fsub 1 p)" and "fmul acc (fsub 1 p) \<le> acc"
    and "round_double (fmul acc (fsub 1 p)) = fmul acc (fsub 1 p)"
proof -
  define t where "t = fsub 1 p"
  have t0: "0 \<le> t" unfolding t_def fsub_def using assms(2) by (intro round_double_nonneg) simp
  have "round_double (1 - p) \<le> round_double 1"
    using assms(1,2) by (intro round_double_mono) simp_all
  then have t1: "t \<le> 1" by (simp add: t_def fsub_def round_double_1)
  have prod0: "0 \<le> acc * t" using assms(3) t0 by simp
  have prod1: "acc * t \<le> acc" using assms(3) t1 mult_left_mono [of t 1 acc] by simp
  show "0 \<le> fmul acc (fsub 1 p)"
    unfolding fmul_def t_def [symmetric] using prod0 by (rule round_double_nonneg)
  have "round_double (acc * t) \<le> round_double acc"
    using prod0 prod1 by (rule round_double_mono)
  then show "fmul acc (fsub 1 p) \<le> acc"
    by (simp add: fmul_def t_def [symmetric] assms(5))
  show "round_double (fmul acc (fsub 1 p)) = fmul acc (fsub 1 p)"
    unfolding fmul_def t_def [symmetric] using prod0 by (rule round_double_idem)
qed

lemma noisy_fold_range:
  assumes "\<forall>v \<in> set vs. 0 \<le> v \<and> v \<le> 1" "0 \<le> acc" "acc \<le> 1" "round_double acc = acc"
  shows "0 \<le> fold (\<lambda>p prod. fmul prod (fsub 1 p)) vs acc
     \<and> fold (\<lambda>p prod. fmul prod (fsub 1 p)) vs acc \<le> 1
     \<and> round_double (fold (\<lambda>p prod. fmul prod (fsub 1 p)) vs acc)
         = fold (\<lambda>p prod. fmul prod (fsub 1 p)) vs acc"
  using assms
proof (induction vs arbitrary: acc)
  case Nil
  then show ?case by simp
next
  case (Cons v vs)
  have v: "0 \<le> v" "v \<le> 1" using Cons.prems(1) by simp_all
  note st = noisy_step [OF v Cons.prems(2,3,4)]
  have le1: "fmul acc (fsub 1 v) \<le> 1" using st(2) Cons.prems(3) by simp
  have rest: "\<forall>v \<in> set vs. 0 \<le> v \<and> v \<le> 1" using Cons.prems(1) by simp
  show ?case
    using Cons.IH [OF rest st(1) le1 st(3)] by simp
qed

lemma combine_probs_noisy_snoc:
  assumes "\<forall>v \<in> set vs. 0 \<le> v \<and> v \<le> 1" and "0 \<le> p" and "p \<le> 1"
  shows "combine_probs ''noisy_or'' vs \<le> combine_probs ''noisy_or'' (vs @ [p])"
proof -
  define q where "q = fold (\<lambda>p prod. fmul prod (fsub 1 p)) vs 1"
  have q: "0 \<le> q" "q \<le> 1" "round_double q = q"
    unfolding q_def using noisy_fold_range [OF assms(1), of 1]
    by (simp_all add: round_double_1)
  define r where "r = fmul q (fsub 1 p)"
  have r: "r \<le> q" "r \<le> 1"
    unfolding r_def using noisy_step(2) [OF assms(2,3) q] q(2) by simp_all
  have app: "combine_probs ''noisy_or'' (vs @ [p]) = fsub 1 r"
    by (cases vs) (simp_all add: combine_probs_def q_def r_def)
  have nonneg: "0 \<le> fsub 1 r"
    unfolding fsub_def using r(2) by (intro round_double_nonneg) simp
  have "round_double (1 - q) \<le> round_double (1 - r)"
    using r(1) q(2) by (intro round_double_mono) simp_all
  then have mono: "fsub 1 q \<le> fsub 1 r"
    by (simp add: fsub_def)
  show ?thesis
    unfolding app using nonneg mono
    by (cases vs) (simp_all add: combine_probs_def q_def)
qed

text \<open>
  The noisy-or of the double written \<^verbatim>\<open>0.2\<close>, two and three times, step by step: the
  results are the doubles Python prints as \<^verbatim>\<open>0.3599999999999999\<close> and
  \<^verbatim>\<open>0.4879999999999999\<close>.
\<close>

lemma noisy_example_sub: "fsub 1 (3602879701896397 / 18014398509481984) = 3602879701896397 / 4503599627370496"
  unfolding fsub_def
  by (subst round_double_eval [where e = "- 1"]) (simp_all add: rne_def Let_def)

lemma noisy_example_mul1: "fmul 1 (3602879701896397 / 4503599627370496) = 3602879701896397 / 4503599627370496"
  unfolding fmul_def
  using round_double_fix [of "3602879701896397 / 4503599627370496" 3602879701896397 "- 52"]
  by simp

lemma noisy_example_mul2: "fmul (3602879701896397 / 4503599627370496) (3602879701896397 / 4503599627370496)
   = 1441151880758559 / 2251799813685248"
  unfolding fmul_def
  by (subst round_double_eval [where e = "- 1"]) (simp_all add: rne_def Let_def)

lemma noisy_example_mul3: "fmul (1441151880758559 / 2251799813685248) (3602879701896397 / 4503599627370496)
   = 4611686018427389 / 9007199254740992"
  unfolding fmul_def
  by (subst round_double_eval [where e = "- 1"]) (simp_all add: rne_def Let_def)

lemma noisy_example_two: "fsub 1 (1441151880758559 / 2251799813685248) = 810647932926689 / 2251799813685248"
  unfolding fsub_def
  by (subst round_double_eval [where e = "- 2"]) (simp_all add: rne_def Let_def)

lemma noisy_example_three: "fsub 1 (4611686018427389 / 9007199254740992) = 4395513236313603 / 9007199254740992"
  unfolding fsub_def
  by (subst round_double_eval [where e = "- 2"]) (simp_all add: rne_def Let_def)

section \<open>Claims\<close>

text \<open>
  C1. The lesion example end to end: the raw predictions Papule 0.5, Pustule 0.2,
  Comedo 0.1, mapped through the taxonomy Papule to Acne, Pustule to Acne, Comedo to
  Blackheads and aggregated by maximum, give the concern map Acne 0.5, Blackheads 0.1;
  tiering that map with high threshold 0.30 and low threshold 0.15 gives the main list
  [(Acne, 0.5)] and an empty low list. The production table \<open>LESION_TO_CONCERN\<close> gives the
  same map.
\<close>

theorem C1_lesion_example:
  "agg_lesions_to_concerns_by_max
      [(''Papule'', 0.5), (''Pustule'', 0.2), (''Comedo'', 0.1)]
      (map_of [(''Papule'', Some ''Acne''), (''Pustule'', Some ''Acne''),
               (''Comedo'', Some ''Blackheads'')])
    = [(''Acne'', 0.5), (''Blackheads'', 0.1)]
   \<and> agg_lesions_to_concerns_by_max
      [(''Papule'', 0.5), (''Pustule'', 0.2), (''Comedo'', 0.1)]
      (map_of LESION_TO_CONCERN)
    = [(''Acne'', 0.5), (''Blackheads'', 0.1)]
   \<and> split_other_concerns [(''Acne'', 0.5), (''Blackheads'', 0.1)] 0.30 0.15
    = ([(''Acne'', 0.5)], [])"
  by (simp add: agg_lesions_to_concerns_by_max_def LESION_TO_CONCERN_def
      split_other_concerns_def sort_prob_reverse_def)

text \<open>
  C2. The tier classifier. For every aggregated concern map and all thresholds (in
  particular those with low threshold at most the high threshold), the first list returned
  by \<open>split_other_concerns\<close> holds exactly the items the classifier of the specification
  calls High, that is those with probability at least the high threshold, and the second
  list exactly the items it calls Low, those with probability at least the low threshold
  and below the high one; every other item is dropped. Both lists are sorted by
  probability, greatest first.
\<close>

theorem C2_tiering:
  "fst (split_other_concerns agg high low) =
     sort_prob_reverse (filter (\<lambda>x. classify_spec (snd x) high low = High) agg)
   \<and> snd (split_other_concerns agg high low) =
     sort_prob_reverse (filter (\<lambda>x. classify_spec (snd x) high low = Low) agg)
   \<and> set (fst (split_other_concerns agg high low)) = {x \<in> set agg. snd x \<ge> high}
   \<and> set (snd (split_other_concerns agg high low)) =
       {x \<in> set agg. low \<le> snd x \<and> snd x < high}
   \<and> sorted_wrt (\<lambda>a b. snd a \<ge> snd b) (fst (split_other_concerns agg high low))
   \<and> sorted_wrt (\<lambda>a b. snd a \<ge> snd b) (snd (split_other_concerns agg high low))"
  by (auto simp add: split_other_concerns_filter classify_spec_High classify_spec_Low
      set_sort_prob_reverse sorted_wrt_sort_prob_reverse)

theorem C2_tiering_witness:
  "split_other_concerns [(''a'', 0.2), (''b'', 0.9), (''c'', 0.1), (''d'', 0.4)] 0.30 0.15
     = ([(''b'', 0.9), (''d'', 0.4)], [(''a'', 0.2)])
   \<and> classify_spec 0.9 0.30 0.15 = High \<and> classify_spec 0.2 0.30 0.15 = Low
   \<and> classify_spec 0.1 0.30 0.15 = Dropped"
  using C2_tiering [of "[(''a'', 0.2), (''b'', 0.9), (''c'', 0.1), (''d'', 0.4)]" "0.30" "0.15"]
  by (simp add: split_other_concerns_filter classify_spec_def sort_prob_reverse_def)

text \<open>
  C3, as amended. \<^verbatim>\<open>merge_concerns_sections\<close> processes its three sections in the fixed
  order conditions, lesions, lesions-low. When the labels inside the conditions section
  are distinct, it is the merge of the specification: an item with an unseen label creates
  an entry with the item's probability and the section's tag, and an item whose label is
  present raises the stored probability to the maximum of the two and appends the tag only
  if the tag is absent. Hence a label has an entry exactly when some section holds it; the
  entry's probability is the maximum over all items with that label, and its sources are
  the sections holding the label, in processing order and without duplicates.
\<close>

theorem C3_merge_sections:
  assumes "distinct (map fst (skin_concerns c))"
  shows "merge_concerns_sections c =
       merge_spec [(''conditions'', skin_concerns c), (''lesions'', other_concerns c),
                   (''lesions-low'', low_concerns c)] []
   \<and> map_of (merge_concerns_sections c) l =
       (if l \<in> fst ` set (skin_concerns c @ other_concerns c @ low_concerns c) then
          Some \<lparr>prob = Max (set (map snd (filter (\<lambda>x. fst x = l)
                           (skin_concerns c @ other_concerns c @ low_concerns c)))),
                source =
                  (if l \<in> fst ` set (skin_concerns c) then [''conditions''] else [])
                  @ (if l \<in> fst ` set (other_concerns c) then [''lesions''] else [])
                  @ (if l \<in> fst ` set (low_concerns c) then [''lesions-low''] else [])\<rparr>
        else None)"
proof -
  define A where "A = map snd (filter (\<lambda>x. fst x = l) (skin_concerns c))"
  define B where "B = map snd (filter (\<lambda>x. fst x = l) (other_concerns c))"
  define C where "C = map snd (filter (\<lambda>x. fst x = l) (low_concerns c))"
  have first: "merge_skin_concerns (skin_concerns c) [] =
      merge_section ''conditions'' (skin_concerns c) []"
    using assms by (intro merge_skin_concerns_distinct) simp_all
  have code: "merge_concerns_sections c =
      merge_section ''lesions-low'' (low_concerns c)
        (merge_section ''lesions'' (other_concerns c)
           (merge_section ''conditions'' (skin_concerns c) []))"
    by (simp add: merge_concerns_sections_def first)
  have refine: "merge_concerns_sections c =
       merge_spec [(''conditions'', skin_concerns c), (''lesions'', other_concerns c),
                   (''lesions-low'', low_concerns c)] []"
    by (simp add: code merge_section_fold)
  have memA: "(l \<in> fst ` set (skin_concerns c)) = (A \<noteq> [])"
    and memB: "(l \<in> fst ` set (other_concerns c)) = (B \<noteq> [])"
    and memC: "(l \<in> fst ` set (low_concerns c)) = (C \<noteq> [])"
    unfolding A_def B_def C_def by (simp_all only: probs_nonempty)
  have all: "map snd (filter (\<lambda>x. fst x = l)
        (skin_concerns c @ other_concerns c @ low_concerns c)) = A @ B @ C"
    by (simp add: A_def B_def C_def)
  have mem_all: "(l \<in> fst ` set (skin_concerns c @ other_concerns c @ low_concerns c))
      = (A \<noteq> [] \<or> B \<noteq> [] \<or> C \<noteq> [])"
    using memA memB memC by (auto simp add: image_Un)
  have lookup: "map_of (merge_concerns_sections c) l =
      (if A \<noteq> [] \<or> B \<noteq> [] \<or> C \<noteq> [] then
         Some \<lparr>prob = Max (set (A @ B @ C)),
               source = (if A \<noteq> [] then [''conditions''] else [])
                 @ (if B \<noteq> [] then [''lesions''] else [])
                 @ (if C \<noteq> [] then [''lesions-low''] else [])\<rparr>
       else None)"
    unfolding code map_of_merge_section memA memB memC
    unfolding A_def [symmetric] B_def [symmetric] C_def [symmetric]
    by (cases "A = []"; cases "B = []"; cases "C = []")
      (simp_all add: Max_set_append Max_Un max.assoc)
  show ?thesis
    using refine lookup unfolding all mem_all memA memB memC by simp
qed

theorem C3_merge_sections_witness:
  "distinct (map fst [(''Acne'', 0.5 :: real), (''Wrinkles'', 0.2)])
   \<and> merge_concerns_sections
       \<lparr>skin_type = (''Oily Skin'', 0.4),
        skin_concerns = [(''Acne'', 0.5), (''Wrinkles'', 0.2)],
        other_concerns = [(''Acne'', 0.6)], low_concerns = [(''Blackheads'', 0.2)]\<rparr>
     = [(''Acne'', \<lparr>prob = 0.6, source = [''conditions'', ''lesions'']\<rparr>),
        (''Wrinkles'', \<lparr>prob = 0.2, source = [''conditions'']\<rparr>),
        (''Blackheads'', \<lparr>prob = 0.2, source = [''lesions-low'']\<rparr>)]"
proof -
  have d: "distinct (map fst (skin_concerns
       \<lparr>skin_type = (''Oily Skin'', 0.4),
        skin_concerns = [(''Acne'', 0.5), (''Wrinkles'', 0.2)],
        other_concerns = [(''Acne'', 0.6)], low_concerns = [(''Blackheads'', 0.2)]\<rparr>))"
    by simp
  show ?thesis
    using C3_merge_sections [OF d]
    by (simp add: merge_item_spec_def)
qed

text \<open>
  C3 as stated fails on the code when a label occurs twice inside the conditions section:
  the first loop assigns the entry without looking whether the label is there, so for
  [(Acne, 0.6), (Acne, 0.5)] the merged probability is 0.5, where the merge of the
  specification keeps 0.6.
\<close>

theorem C3_counterexample:
  "merge_concerns_sections
     \<lparr>skin_type = (''Oily Skin'', 0.4), skin_concerns = [(''Acne'', 0.6), (''Acne'', 0.5)],
      other_concerns = [], low_concerns = []\<rparr>
   = [(''Acne'', \<lparr>prob = 0.5, source = [''conditions'']\<rparr>)]
   \<and> merge_spec [(''conditions'', [(''Acne'', 0.6), (''Acne'', 0.5)]), (''lesions'', []),
                 (''lesions-low'', [])] []
   = [(''Acne'', \<lparr>prob = 0.6, source = [''conditions'']\<rparr>)]"
  by (simp add: merge_concerns_sections_def merge_item_spec_def)

text \<open>
  C4 fails on the code: the third loop appends its tag to an entry that does not have it.
\<close>

theorem C4_counterexample:
  "merge_concerns_sections
     \<lparr>skin_type = (''Oily Skin'', 0.4), skin_concerns = [(''Acne'', 0.5)],
      other_concerns = [(''Acne'', 0.6)], low_concerns = [(''Acne'', 0.6)]\<rparr>
   \<noteq> [(''Acne'', \<lparr>prob = 0.6, source = [''conditions'', ''lesions'']\<rparr>)]"
  by (simp add: merge_concerns_sections_def)

text \<open>
  C4, as amended. Merging the sections conditions [(Acne, 0.5)], lesions [(Acne, 0.6)] and
  lesions-low [(Acne, 0.6)] gives exactly one entry, Acne with probability 0.6 and the
  sources conditions, lesions, lesions-low: the third section contributes its tag too.
\<close>

theorem C4_merge_example:
  "merge_concerns_sections
     \<lparr>skin_type = (''Oily Skin'', 0.4), skin_concerns = [(''Acne'', 0.5)],
      other_concerns = [(''Acne'', 0.6)], low_concerns = [(''Acne'', 0.6)]\<rparr>
   = [(''Acne'', \<lparr>prob = 0.6, source = [''conditions'', ''lesions'', ''lesions-low'']\<rparr>)]"
  by (simp add: merge_concerns_sections_def)

text \<open>
  C5, as amended. The code validates no thresholds. With a low threshold above the high
  threshold, \<open>split_other_concerns\<close> returns normally: its low list is empty and its high
  list holds exactly the items with probability at least the high threshold. The whole
  combination step, given a non-empty list of skin-type labels, returns a result and no
  error, with that empty low list. The closed instance after it runs the combination
  step with the thresholds 0.30 and 0.50 swapped: it returns a result in which Acne at
  0.4, a value below the low threshold, is a high concern.
\<close>

theorem C5_no_threshold_validation:
  assumes "low > high" and "skin_type_labels \<noteq> []"
  shows "split_other_concerns agg high low =
           (sort_prob_reverse (filter (\<lambda>x. snd x \<ge> high) agg), [])
   \<and> (case run_combined_AI_from_cv2 cond_all_results lesion_all_results skin_type_labels
              cond_threshold high low lesion_mapping of
         Inl e \<Rightarrow> False
       | Inr r \<Rightarrow>
           low_concerns r = []
         \<and> other_concerns r =
             sort_prob_reverse (filter (\<lambda>x. snd x \<ge> high)
               (agg_lesions_to_concerns_by_max lesion_all_results lesion_mapping)))"
proof -
  have empty: "\<And>xs. filter (\<lambda>x. \<not> snd x \<ge> high \<and> snd x \<ge> low) xs = ([] :: item list)"
    using assms(1) by (auto simp add: filter_empty_conv)
  have split: "\<And>xs. split_other_concerns xs high low =
           (sort_prob_reverse (filter (\<lambda>x. snd x \<ge> high) xs), [])"
    by (simp add: split_other_concerns_filter empty sort_prob_reverse_def)
  from assms(2) obtain c cs where "skin_type_labels = c # cs"
    by (cases skin_type_labels) auto
  then show ?thesis
    by (simp add: split run_combined_AI_from_cv2_def pick_skin_type_def py_max_key_def)
qed

theorem C5_no_threshold_validation_witness:
  "(0.30 :: real) < 0.50 \<and> [''Oily Skin'', ''Dry Skin'', ''Normal Skin''] \<noteq> []
   \<and> split_other_concerns [(''Acne'', 0.4), (''Blackheads'', 0.1)] 0.30 0.50
       = ([(''Acne'', 0.4)], [])"
proof -
  have h: "(0.30 :: real) < 0.50" by simp
  have n: "[''Oily Skin'', ''Dry Skin'', ''Normal Skin''] \<noteq> []" by simp
  show ?thesis
    using C5_no_threshold_validation [OF h n, of "[(''Acne'', 0.4), (''Blackheads'', 0.1)]"] h
    by (simp add: sort_prob_reverse_def)
qed

theorem C5_counterexample:
  "(0.30 :: real) < 0.50
   \<and> run_combined_AI_from_cv2
       [(''Oily Skin'', 0.6), (''Acne'', 0.2)] [(''Papule'', 0.4), (''Comedo'', 0.1)]
       [''Oily Skin'', ''Dry Skin'', ''Normal Skin''] 0.15 0.30 0.50
       (map_of LESION_TO_CONCERN)
     = Inr \<lparr>skin_type = (''Oily Skin'', 0.6), skin_concerns = [(''Acne'', 0.2)],
            other_concerns = [(''Acne'', 0.4)], low_concerns = []\<rparr>"
  by (simp add: run_combined_AI_from_cv2_def pick_skin_type_def py_max_key_def
      get_default_def split_other_concerns_def agg_lesions_to_concerns_by_max_def
      LESION_TO_CONCERN_def skin_concerns_from_conditions_def sort_prob_reverse_def)

text \<open>
  C6 fails on the production picker: with an empty prediction map and the three default
  candidates it returns the selection (Oily Skin, 0.0), not \<^verbatim>\<open>None\<close>; with an empty
  candidate list \<^verbatim>\<open>max\<close> raises \<^verbatim>\<open>ValueError\<close>.
\<close>

theorem C6_counterexample:
  "pick_skin_type Map.empty [''Oily Skin'', ''Dry Skin'', ''Normal Skin'']
     = Inr (''Oily Skin'', 0)
   \<and> pick_skin_type (map_of [(''Oily Skin'', 0.4)]) [] = Inl ValueError"
  by (simp add: pick_skin_type_def py_max_key_def get_default_def)

text \<open>
  C6, as amended. With an empty prediction set the picker of \<^verbatim>\<open>Combined_Predict.py\<close>
  returns \<^verbatim>\<open>None\<close> and raises nothing; the production picker, given an empty prediction
  map and a non-empty candidate list, raises nothing either and returns the first candidate
  with probability 0.0.
\<close>

theorem C6_empty_predictions:
  "Combined_Predict_pick_skin_type strip lower [] probs = Inr None
   \<and> pick_skin_type Map.empty (c # cs) = Inr (c, 0)"
proof -
  have loop: "\<And>b :: string. max_key_loop (\<lambda>k. 0) cs b = b"
    by (induction cs) simp_all
  show ?thesis
    by (simp add: Combined_Predict_pick_skin_type_def pick_skin_type_def py_max_key_def
        loop get_default_def)
qed

text \<open>
  C7, as amended. In double arithmetic and for contributor probabilities in [0,1],
  appending one more contributor never decreases the value of \<open>combine_probs\<close> under the
  methods max and noisy-or. Under avg the value can decrease: the average of [1.0] is 1.0
  and that of [1.0, 0.0] is 0.5.
\<close>

theorem C7_monotone_max_noisy_or:
  assumes "\<forall>v \<in> set vs. 0 \<le> v \<and> v \<le> 1" and "0 \<le> p" and "p \<le> 1"
  shows "combine_probs ''max'' vs \<le> combine_probs ''max'' (vs @ [p])
   \<and> combine_probs ''noisy_or'' vs \<le> combine_probs ''noisy_or'' (vs @ [p])
   \<and> combine_probs ''avg'' ([1] @ [0]) < combine_probs ''avg'' [1]"
proof -
  have "combine_probs ''max'' vs \<le> combine_probs ''max'' (vs @ [p])"
    using assms(2) by (simp add: combine_probs_max_snoc) (simp add: combine_probs_def)
  moreover have "combine_probs ''avg'' ([1] @ [0]) < combine_probs ''avg'' [1]"
    by (simp add: combine_probs_def py_sum_def fadd_def fdiv_def round_double_1
        round_double_half)
  ultimately show ?thesis
    using combine_probs_noisy_snoc [OF assms] by blast
qed

theorem C7_monotone_max_noisy_or_witness:
  "(0 :: real) \<le> 3602879701896397 / 18014398509481984
   \<and> (3602879701896397 / 18014398509481984 :: real) \<le> 1
   \<and> combine_probs ''noisy_or''
        [3602879701896397 / 18014398509481984, 3602879701896397 / 18014398509481984]
      = 810647932926689 / 2251799813685248
   \<and> combine_probs ''noisy_or''
        ([3602879701896397 / 18014398509481984, 3602879701896397 / 18014398509481984]
         @ [3602879701896397 / 18014398509481984])
      = 4395513236313603 / 9007199254740992
   \<and> combine_probs ''noisy_or''
        [3602879701896397 / 18014398509481984, 3602879701896397 / 18014398509481984]
      \<le> combine_probs ''noisy_or''
        ([3602879701896397 / 18014398509481984, 3602879701896397 / 18014398509481984]
         @ [3602879701896397 / 18014398509481984])
   \<and> combine_probs ''max''
        [3602879701896397 / 18014398509481984, 3602879701896397 / 18014398509481984]
      \<le> combine_probs ''max''
        ([3602879701896397 / 18014398509481984, 3602879701896397 / 18014398509481984]
         @ [3602879701896397 / 18014398509481984])"
proof -
  have h1: "\<forall>v \<in> set [3602879701896397 / 18014398509481984,
      3602879701896397 / 18014398509481984 :: real]. 0 \<le> v \<and> v \<le> 1"
    by simp
  have h2: "(0 :: real) \<le> 3602879701896397 / 18014398509481984" by simp
  have h3: "(3602879701896397 / 18014398509481984 :: real) \<le> 1" by simp
  have e2: "combine_probs ''noisy_or''
        [3602879701896397 / 18014398509481984, 3602879701896397 / 18014398509481984]
      = 810647932926689 / 2251799813685248"
    by (simp add: combine_probs_def noisy_example_sub noisy_example_mul1
        noisy_example_mul2 noisy_example_two)
  have e3: "combine_probs ''noisy_or''
        ([3602879701896397 / 18014398509481984, 3602879701896397 / 18014398509481984]
         @ [3602879701896397 / 18014398509481984])
      = 4395513236313603 / 9007199254740992"
    by (simp add: combine_probs_def noisy_example_sub noisy_example_mul1
        noisy_example_mul2 noisy_example_mul3 noisy_example_three)
  show ?thesis
    using C7_monotone_max_noisy_or [OF h1 h2 h3] h2 h3 e2 e3 by blast
qed

text \<open>
  C7 as stated fails for avg, on doubles that round nowhere: the average of [1.0] is 1.0
  and appending 0.0 gives 0.5.
\<close>

theorem C7_counterexample:
  "(0 :: real) \<le> 1 \<and> (1 :: real) \<le> 1 \<and> (0 :: real) \<le> 0
   \<and> combine_probs ''avg'' [1] = 1 \<and> combine_probs ''avg'' ([1] @ [0]) = 1 / 2
   \<and> combine_probs ''avg'' ([1] @ [0]) < combine_probs ''avg'' [1]"
  by (simp add: combine_probs_def py_sum_def fadd_def fdiv_def round_double_1
      round_double_half)

text \<open>
  C8. The skin-type picker returns, for a non-empty candidate list, a candidate whose
  probability (the entry of the prediction map, 0.0 when absent) is the greatest among the
  candidates, and every candidate listed before its first occurrence has a strictly smaller
  probability: ties go to the first candidate in list order. For the candidates Oily Skin,
  Dry Skin, Normal Skin and the predictions 0.40, 0.40, 0.10 the selection is
  (Oily Skin, 0.40).
\<close>

theorem C8_pick_first_maximum:
  "(skin_type_labels \<noteq> [] \<longrightarrow>
      (\<exists>l. pick_skin_type prob_map skin_type_labels = Inr (l, get_default prob_map l 0)
         \<and> l \<in> set skin_type_labels
         \<and> (\<forall>c \<in> set skin_type_labels. get_default prob_map c 0 \<le> get_default prob_map l 0)
         \<and> (\<forall>c \<in> set (takeWhile (\<lambda>c. c \<noteq> l) skin_type_labels).
               get_default prob_map c 0 < get_default prob_map l 0)))
   \<and> pick_skin_type
        (map_of [(''Oily Skin'', 0.40), (''Dry Skin'', 0.40), (''Normal Skin'', 0.10)])
        [''Oily Skin'', ''Dry Skin'', ''Normal Skin'']
      = Inr (''Oily Skin'', 0.40)"
proof -
  have general: "skin_type_labels \<noteq> [] \<longrightarrow>
      (\<exists>l. pick_skin_type prob_map skin_type_labels = Inr (l, get_default prob_map l 0)
         \<and> l \<in> set skin_type_labels
         \<and> (\<forall>c \<in> set skin_type_labels. get_default prob_map c 0 \<le> get_default prob_map l 0)
         \<and> (\<forall>c \<in> set (takeWhile (\<lambda>c. c \<noteq> l) skin_type_labels).
               get_default prob_map c 0 < get_default prob_map l 0))"
  proof
    assume "skin_type_labels \<noteq> []"
    from py_max_key_first [OF this, of "\<lambda>k. get_default prob_map k 0"]
    obtain r where r: "py_max_key (\<lambda>k. get_default prob_map k 0) skin_type_labels = Inr r"
      and rest: "r \<in> set skin_type_labels"
        "\<forall>c \<in> set skin_type_labels. get_default prob_map c 0 \<le> get_default prob_map r 0"
        "\<forall>c \<in> set (takeWhile (\<lambda>c. c \<noteq> r) skin_type_labels).
            get_default prob_map c 0 < get_default prob_map r 0"
      by blast
    have "pick_skin_type prob_map skin_type_labels = Inr (r, get_default prob_map r 0)"
      by (simp add: pick_skin_type_def r)
    then show "\<exists>l. pick_skin_type prob_map skin_type_labels = Inr (l, get_default prob_map l 0)
         \<and> l \<in> set skin_type_labels
         \<and> (\<forall>c \<in> set skin_type_labels. get_default prob_map c 0 \<le> get_default prob_map l 0)
         \<and> (\<forall>c \<in> set (takeWhile (\<lambda>c. c \<noteq> l) skin_type_labels).
               get_default prob_map c 0 < get_default prob_map l 0)"
      using rest by blast
  qed
  have example: "pick_skin_type
        (map_of [(''Oily Skin'', 0.40), (''Dry Skin'', 0.40), (''Normal Skin'', 0.10)])
        [''Oily Skin'', ''Dry Skin'', ''Normal Skin'']
      = Inr (''Oily Skin'', 0.40)"
    by (simp add: pick_skin_type_def py_max_key_def get_default_def)
  show ?thesis using general example by blast
qed

theorem C8_pick_first_maximum_witness:
  "[''Dry Skin'', ''Normal Skin'', ''Oily Skin''] \<noteq> []
   \<and> pick_skin_type (map_of [(''Oily Skin'', 0.7), (''Normal Skin'', 0.7), (''Acne'', 0.9)])
        [''Dry Skin'', ''Normal Skin'', ''Oily Skin''] = Inr (''Normal Skin'', 0.7)"
  using C8_pick_first_maximum
    [of "[''Dry Skin'', ''Normal Skin'', ''Oily Skin'']"
        "map_of [(''Oily Skin'', 0.7), (''Normal Skin'', 0.7), (''Acne'', 0.9)]"]
  by (simp add: pick_skin_type_def py_max_key_def get_default_def)

text \<open>
  C9. For every non-empty candidate list the picker returns a selection, never an error and
  never nothing: the label is one of the candidates and the probability is that label's
  entry in the prediction map, or 0.0 when the label is absent. When no candidate is a key
  of the prediction map, the selection is the first candidate with probability 0.0,
  whatever else the map holds.
\<close>

theorem C9_pick_always_selects:
  assumes "skin_type_labels \<noteq> []"
  shows "(\<exists>l. pick_skin_type prob_map skin_type_labels
               = Inr (l, (case prob_map l of None \<Rightarrow> 0 | Some p \<Rightarrow> p))
            \<and> l \<in> set skin_type_labels)
   \<and> ((\<forall>c \<in> set skin_type_labels. prob_map c = None) \<longrightarrow>
        pick_skin_type prob_map skin_type_labels = Inr (hd skin_type_labels, 0))"
proof -
  from py_max_key_first [OF assms, of "\<lambda>k. get_default prob_map k 0"]
  obtain r where r: "py_max_key (\<lambda>k. get_default prob_map k 0) skin_type_labels = Inr r"
    and mem: "r \<in> set skin_type_labels"
    and first: "\<forall>c \<in> set (takeWhile (\<lambda>c. c \<noteq> r) skin_type_labels).
            get_default prob_map c 0 < get_default prob_map r 0"
    by blast
  have pick: "pick_skin_type prob_map skin_type_labels = Inr (r, get_default prob_map r 0)"
    by (simp add: pick_skin_type_def r)
  have part1: "\<exists>l. pick_skin_type prob_map skin_type_labels
               = Inr (l, (case prob_map l of None \<Rightarrow> 0 | Some p \<Rightarrow> p))
            \<and> l \<in> set skin_type_labels"
    using pick mem by (auto simp add: get_default_def)
  have part2: "pick_skin_type prob_map skin_type_labels = Inr (hd skin_type_labels, 0)"
    if none: "\<forall>c \<in> set skin_type_labels. prob_map c = None"
  proof -
    have zero: "\<And>c. c \<in> set skin_type_labels \<Longrightarrow> get_default prob_map c 0 = 0"
      using none by (simp add: get_default_def)
    have "takeWhile (\<lambda>c. c \<noteq> r) skin_type_labels = []"
    proof (rule ccontr)
      assume "takeWhile (\<lambda>c. c \<noteq> r) skin_type_labels \<noteq> []"
      then obtain c where c: "c \<in> set (takeWhile (\<lambda>c. c \<noteq> r) skin_type_labels)"
        by (cases "takeWhile (\<lambda>c. c \<noteq> r) skin_type_labels") auto
      then have "c \<in> set skin_type_labels" by (rule set_takeWhileD [THEN conjunct1])
      then have "get_default prob_map c 0 = 0" by (rule zero)
      moreover have "get_default prob_map r 0 = 0" using mem by (rule zero)
      ultimately show False using first c by fastforce
    qed
    then have "hd skin_type_labels = r"
      using assms by (cases skin_type_labels) (auto split: if_splits)
    then show ?thesis using pick zero [OF mem] by simp
  qed
  show ?thesis using part1 part2 by blast
qed

theorem C9_pick_always_selects_witness:
  "[''Oily Skin'', ''Dry Skin'', ''Normal Skin''] \<noteq> []
   \<and> pick_skin_type (map_of [(''Acne'', 0.9), (''Wrinkles'', 0.3)])
        [''Oily Skin'', ''Dry Skin'', ''Normal Skin''] = Inr (''Oily Skin'', 0)"
proof -
  have n: "[''Oily Skin'', ''Dry Skin'', ''Normal Skin''] \<noteq> []" by simp
  show ?thesis
    using C9_pick_always_selects [OF n, of "map_of [(''Acne'', 0.9), (''Wrinkles'', 0.3)]"]
    by simp
qed

text \<open>
  C10. Tiering partitions the concern map. For a dict (its keys are distinct) and a low
  threshold at most the high threshold: both returned lists hold items of the input only,
  with their probabilities unchanged; no label occurs twice in a list or in both lists;
  every item with probability at least the low threshold is in exactly one of the two
  lists; and the label of an item with probability below the low threshold is in neither.
\<close>

theorem C10_partition:
  assumes "distinct (map fst agg)" and "low \<le> high"
  shows "set (fst (split_other_concerns agg high low)) \<subseteq> set agg
   \<and> set (snd (split_other_concerns agg high low)) \<subseteq> set agg
   \<and> distinct (map fst (fst (split_other_concerns agg high low)))
   \<and> distinct (map fst (snd (split_other_concerns agg high low)))
   \<and> fst ` set (fst (split_other_concerns agg high low))
       \<inter> fst ` set (snd (split_other_concerns agg high low)) = {}
   \<and> (\<forall>x \<in> set agg. snd x \<ge> low \<longrightarrow>
         (x \<in> set (fst (split_other_concerns agg high low)))
           \<noteq> (x \<in> set (snd (split_other_concerns agg high low))))
   \<and> (\<forall>x \<in> set agg. snd x < low \<longrightarrow>
         fst x \<notin> fst ` set (fst (split_other_concerns agg high low))
       \<and> fst x \<notin> fst ` set (snd (split_other_concerns agg high low)))"
proof -
  have inj: "inj_on fst (set agg)"
    using assms(1) by (simp add: distinct_map)
  have key: "\<And>a p q. (a, p) \<in> set agg \<Longrightarrow> (a, q) \<in> set agg \<Longrightarrow> p = q"
  proof -
    fix a p q assume "(a, p) \<in> set agg" and "(a, q) \<in> set agg"
    then show "p = q"
      using inj_onD [OF inj, of "(a, p)" "(a, q)"] by simp
  qed
  have sub: "set (fst (split_other_concerns agg high low)) \<subseteq> set agg"
       "set (snd (split_other_concerns agg high low)) \<subseteq> set agg"
    by (auto simp add: split_other_concerns_filter set_sort_prob_reverse)
  have dist: "distinct (map fst (fst (split_other_concerns agg high low)))"
       "distinct (map fst (snd (split_other_concerns agg high low)))"
    using assms(1)
    by (simp_all add: split_other_concerns_filter distinct_fst_sort_prob_reverse
        distinct_map_filter)
  have disj: "fst ` set (fst (split_other_concerns agg high low))
       \<inter> fst ` set (snd (split_other_concerns agg high low)) = {}"
    using key
    by (fastforce simp add: split_other_concerns_filter set_sort_prob_reverse)
  have one: "\<forall>x \<in> set agg. snd x \<ge> low \<longrightarrow>
         (x \<in> set (fst (split_other_concerns agg high low)))
           \<noteq> (x \<in> set (snd (split_other_concerns agg high low)))"
    by (auto simp add: split_other_concerns_filter set_sort_prob_reverse)
  have none: "\<forall>x \<in> set agg. snd x < low \<longrightarrow>
         fst x \<notin> fst ` set (fst (split_other_concerns agg high low))
       \<and> fst x \<notin> fst ` set (snd (split_other_concerns agg high low))"
    using key assms(2)
    by (fastforce simp add: split_other_concerns_filter set_sort_prob_reverse)
  show ?thesis
    using sub dist disj one none by blast
qed

theorem C10_partition_witness:
  "distinct (map fst [(''a'', 0.2 :: real), (''b'', 0.9), (''c'', 0.1), (''d'', 0.4)])
   \<and> (0.15 :: real) \<le> 0.30
   \<and> split_other_concerns [(''a'', 0.2), (''b'', 0.9), (''c'', 0.1), (''d'', 0.4)] 0.30 0.15
       = ([(''b'', 0.9), (''d'', 0.4)], [(''a'', 0.2)])
   \<and> fst ` set (fst (split_other_concerns
          [(''a'', 0.2), (''b'', 0.9), (''c'', 0.1), (''d'', 0.4)] 0.30 0.15))
       \<inter> fst ` set (snd (split_other_concerns
          [(''a'', 0.2), (''b'', 0.9), (''c'', 0.1), (''d'', 0.4)] 0.30 0.15)) = {}"
proof -
  have d: "distinct (map fst [(''a'', 0.2 :: real), (''b'', 0.9), (''c'', 0.1), (''d'', 0.4)])"
    by simp
  have t: "(0.15 :: real) \<le> 0.30" by simp
  have e: "split_other_concerns [(''a'', 0.2), (''b'', 0.9), (''c'', 0.1), (''d'', 0.4)] 0.30 0.15
       = ([(''b'', 0.9), (''d'', 0.4)], [(''a'', 0.2)])"
    by (simp add: split_other_concerns_filter sort_prob_reverse_def)
  show ?thesis
    using C10_partition [OF d t] d t e by blast
qed

end
